theory Spec2Isabelle
  imports Main
begin

section \<open>Python values and built-ins used by the package\<close>

text \<open>
  Python integers are unbounded and are modelled as \<open>int\<close>. A \<open>bytes\<close> value is a
  list of 8-bit characters. A \<open>str\<close> is modelled by the byte sequence of its UTF-8
  encoding, so \<open>str.encode("utf-8")\<close> is the identity on the model; hexadecimal text
  is ASCII, one character per digit.
\<close>

type_synonym bytes = "char list"

datatype error =
    ValueError string
  | KeyError string
  | TypeError
  | IndexError
  | OverflowError
  | AttributeError
  | ZeroDivisionError

definition bind_err :: "error + 'a \<Rightarrow> ('a \<Rightarrow> error + 'b) \<Rightarrow> error + 'b" where
  "bind_err m f = (case m of Inl e \<Rightarrow> Inl e | Inr v \<Rightarrow> f v)"

fun sequence_err :: "(error + 'a) list \<Rightarrow> error + 'a list" where
  "sequence_err [] = Inr []"
| "sequence_err (m # ms) =
     bind_err m (\<lambda>v. bind_err (sequence_err ms) (\<lambda>vs. Inr (v # vs)))"

definition encode_utf8 :: "string \<Rightarrow> bytes" where
  "encode_utf8 s = s"

text \<open>\<open>a % q\<close>: floor remainder with the sign of the divisor; a zero divisor raises.\<close>

definition py_mod :: "int \<Rightarrow> int \<Rightarrow> error + int" where
  "py_mod a q = (if q = 0 then Inl ZeroDivisionError else Inr (a mod q))"

text \<open>
  \<open>pow(b, e, m)\<close>: a zero modulus raises; a negative exponent replaces the base by its
  inverse modulo \<open>|m|\<close> and raises when there is none; the result has the sign of \<open>m\<close>.
\<close>

definition invmod :: "int \<Rightarrow> int \<Rightarrow> int option" where
  "invmod a n = List.find (\<lambda>x. (a * x) mod n = 1 mod n) [0..n - 1]"

definition py_pow :: "int \<Rightarrow> int \<Rightarrow> int \<Rightarrow> error + int" where
  "py_pow b e m =
     (if m = 0 then Inl (ValueError ''pow() 3rd argument cannot be 0'')
      else if e < 0 then
        (case invmod b \<bar>m\<bar> of
           None \<Rightarrow> Inl (ValueError ''base is not invertible for the given modulus'')
         | Some i \<Rightarrow> Inr (i ^ nat (- e) mod m))
      else Inr (b ^ nat e mod m))"

text \<open>\<open>int.bit_length()\<close>: the number of bits of the absolute value.\<close>

fun bit_length_nat :: "nat \<Rightarrow> nat" where
  "bit_length_nat n = (if n = 0 then 0 else Suc (bit_length_nat (n div 2)))"

declare bit_length_nat.simps [simp del]

definition bit_length :: "int \<Rightarrow> nat" where
  "bit_length v = bit_length_nat (nat \<bar>v\<bar>)"

text \<open>
  \<open>secrets.randbits(k)\<close> and \<open>secrets.randbelow(n)\<close> read the operating system's
  entropy. The model takes the raw entropy \<open>r\<close> as an argument and keeps the
  library's contract: \<open>randbits\<close> gives a value below \<open>2 ^ k\<close> and raises for a
  negative \<open>k\<close>; \<open>randbelow\<close> gives a value below \<open>n\<close> and raises unless \<open>n\<close> is
  positive.
\<close>

definition randbits :: "int \<Rightarrow> nat \<Rightarrow> error + int" where
  "randbits k r =
     (if k < 0 then Inl (ValueError ''number of bits must be non-negative'')
      else Inr (int (r mod 2 ^ nat k)))"


text \<open>
  \<open>int.to_bytes(length, "big")\<close> raises OverflowError for a negative value and for one
  that does not fit; \<open>int.from_bytes(b, "big")\<close> reads any byte string.
\<close>

fun to_bytes_big :: "nat \<Rightarrow> nat \<Rightarrow> bytes" where
  "to_bytes_big 0 v = []"
| "to_bytes_big (Suc k) v = to_bytes_big k (v div 256) @ [char_of (v mod 256)]"

definition to_bytes :: "int \<Rightarrow> nat \<Rightarrow> error + bytes" where
  "to_bytes v len =
     (if v < 0 then Inl OverflowError
      else if 256 ^ len \<le> nat v then Inl OverflowError
      else Inr (to_bytes_big len (nat v)))"

definition from_bytes :: "bytes \<Rightarrow> int" where
  "from_bytes bs = foldl (\<lambda>acc b. acc * 256 + of_char b) 0 bs"

text \<open>\<open>bytes.hex()\<close> and \<open>hexdigest()\<close>: two lower-case digits per byte.\<close>

definition hex_digit :: "nat \<Rightarrow> char" where
  "hex_digit n = char_of (if n < 10 then 48 + n else 87 + n)"

definition hex_of_bytes :: "bytes \<Rightarrow> string" where
  "hex_of_bytes bs =
     concat (map (\<lambda>b. [hex_digit (of_char b div 16), hex_digit (of_char b mod 16)]) bs)"

text \<open>\<open>hex(v)\<close>: sign, the prefix \<open>0x\<close>, and the lower-case digits with no leading zero.\<close>

fun hex_digits :: "nat \<Rightarrow> string" where
  "hex_digits n =
     (if n < 16 then [hex_digit n] else hex_digits (n div 16) @ [hex_digit (n mod 16)])"

declare hex_digits.simps [simp del]

definition py_hex :: "int \<Rightarrow> string" where
  "py_hex v = (if v < 0 then ''-0x'' @ hex_digits (nat (- v)) else ''0x'' @ hex_digits (nat v))"

text \<open>
  \<open>int(s, 16)\<close> works in two steps. The second one, \<open>long_from_string\<close>, reads ASCII
  text: white space (tab, line feed, vertical tab, form feed, carriage return, space)
  is skipped at both ends, then an optional sign, an optional prefix \<open>0x\<close> or \<open>0X\<close>
  (one underscore may follow it), then hexadecimal digits of either case, single
  underscores allowed between digits. Anything else raises ValueError.
\<close>

definition hexval :: "char \<Rightarrow> nat option" where
  "hexval c =
     (let n = (of_char c :: nat) in
      if 48 \<le> n \<and> n \<le> 57 then Some (n - 48)
      else if 97 \<le> n \<and> n \<le> 102 then Some (n - 87)
      else if 65 \<le> n \<and> n \<le> 70 then Some (n - 55)
      else None)"

definition is_space :: "char \<Rightarrow> bool" where
  "is_space c = (let n = (of_char c :: nat) in (9 \<le> n \<and> n \<le> 13) \<or> n = 32)"

definition is_hex :: "char \<Rightarrow> bool" where
  "is_hex c = (hexval c \<noteq> None)"

definition digits_value :: "string \<Rightarrow> nat" where
  "digits_value ds = foldl (\<lambda>acc c. acc * 16 + the (hexval c)) 0 ds"

fun double_underscore :: "string \<Rightarrow> bool" where
  "double_underscore (a # b # cs) =
     ((a = CHR ''_'' \<and> b = CHR ''_'') \<or> double_underscore (b # cs))"
| "double_underscore cs = False"

definition long_from_string :: "string \<Rightarrow> error + int" where
  "long_from_string s =
     (let s1 = dropWhile is_space s;
          neg = (s1 \<noteq> [] \<and> hd s1 = CHR ''-'');
          s2 = (if s1 \<noteq> [] \<and> (hd s1 = CHR ''+'' \<or> hd s1 = CHR ''-'') then tl s1 else s1);
          s3 = (case s2 of
                  a # b # r \<Rightarrow>
                    if a = CHR ''0'' \<and> (b = CHR ''x'' \<or> b = CHR ''X'')
                    then (case r of c # r' \<Rightarrow> if c = CHR ''_'' then r' else r | [] \<Rightarrow> r)
                    else s2
                | _ \<Rightarrow> s2);
          body = takeWhile (\<lambda>c. is_hex c \<or> c = CHR ''_'') s3;
          rest = dropWhile (\<lambda>c. is_hex c \<or> c = CHR ''_'') s3;
          ds = filter is_hex body
      in if body = [] \<or> hd body = CHR ''_'' \<or> last body = CHR ''_'' \<or> double_underscore body
            \<or> dropWhile is_space rest \<noteq> []
         then Inl (ValueError ''invalid literal for int() with base 16'')
         else Inr (if neg then - int (digits_value ds) else int (digits_value ds)))"

text \<open>\<open>xs[i]\<close> on a tuple, for a non-negative index.\<close>

definition index :: "'a list \<Rightarrow> nat \<Rightarrow> error + 'a" where
  "index xs i = (if i < length xs then Inr (xs ! i) else Inl IndexError)"

text \<open>
  \<open>secrets.compare_digest(a, b)\<close> on two \<open>str\<close> values: equality, and TypeError when
  either holds a character outside ASCII.
\<close>

definition is_ascii :: "string \<Rightarrow> bool" where
  "is_ascii s = (\<forall>c \<in> set s. (of_char c :: nat) < 128)"

definition compare_digest :: "string \<Rightarrow> string \<Rightarrow> error + bool" where
  "compare_digest a b = (if is_ascii a \<and> is_ascii b then Inr (a = b) else Inl TypeError)"

text \<open>
  The characters of a \<open>str\<close>: \<open>utf8_chars\<close> cuts the UTF-8 bytes at the lead bytes,
  and \<open>code_point\<close> decodes the bytes of one character (\<open>None\<close> when they are not
  the encoding of one).
\<close>

definition utf8_len :: "char \<Rightarrow> nat" where
  "utf8_len c =
     (let b = (of_char c :: nat) in
      if b < 192 then 1 else if b < 224 then 2 else if b < 240 then 3
      else if b < 248 then 4 else 1)"

fun utf8_chars :: "string \<Rightarrow> string list" where
  "utf8_chars [] = []"
| "utf8_chars (c # cs) =
     (c # take (utf8_len c - 1) cs) # utf8_chars (drop (utf8_len c - 1) cs)"

definition continuation :: "nat \<Rightarrow> bool" where
  "continuation b = (128 \<le> b \<and> b < 192)"

definition code_point :: "string \<Rightarrow> nat option" where
  "code_point g =
     (case map of_char g of
        [a] \<Rightarrow> if a < 128 then Some a else None
      | [a, b] \<Rightarrow>
          if 192 \<le> a \<and> a < 224 \<and> continuation b
          then Some ((a - 192) * 64 + (b - 128)) else None
      | [a, b, c] \<Rightarrow>
          if 224 \<le> a \<and> a < 240 \<and> continuation b \<and> continuation c
          then Some ((a - 224) * 4096 + (b - 128) * 64 + (c - 128)) else None
      | [a, b, c, d] \<Rightarrow>
          if 240 \<le> a \<and> a < 248 \<and> continuation b \<and> continuation c \<and> continuation d
          then Some ((a - 240) * 262144 + (b - 128) * 4096 + (c - 128) * 64 + (d - 128))
          else None
      | _ \<Rightarrow> None)"

text \<open>
  The first step of \<open>int(s, 16)\<close> leaves a \<open>str\<close> of ASCII characters as it is. In any
  other \<open>str\<close> it keeps the characters below 127, turns a Unicode white space into a
  space and a Unicode decimal digit into the ASCII digit of its value, and gives up
  at any other character, which raises ValueError. Which characters are white space
  and decimal digits is the interpreter's Unicode database, a parameter of the model:
  \<open>isspace\<close> and \<open>todecimal\<close> on code points.
\<close>

record unicodedata =
  isspace :: "nat \<Rightarrow> bool"
  todecimal :: "nat \<Rightarrow> nat option"

definition transform_char :: "unicodedata \<Rightarrow> string \<Rightarrow> char option" where
  "transform_char db g =
     (case code_point g of
        None \<Rightarrow> None
      | Some ch \<Rightarrow>
          if ch < 127 then Some (char_of ch)
          else if isspace db ch then Some (CHR '' '')
          else (case todecimal db ch of
                  Some d \<Rightarrow> if d < 10 then Some (char_of (48 + d)) else None
                | None \<Rightarrow> None))"

definition transform_decimal_and_space :: "unicodedata \<Rightarrow> string \<Rightarrow> string option" where
  "transform_decimal_and_space db s =
     (if is_ascii s then Some s else those (map (transform_char db) (utf8_chars s)))"

definition py_int16 :: "unicodedata \<Rightarrow> string \<Rightarrow> error + int" where
  "py_int16 db s =
     (case transform_decimal_and_space db s of
        None \<Rightarrow> Inl (ValueError ''invalid literal for int() with base 16'')
      | Some a \<Rightarrow> long_from_string a)"

text \<open>The values a decoded JSON document holds; a \<open>dict\<close> keeps its insertion order.\<close>

datatype pyobj =
    PNone
  | PBool bool
  | PInt int
  | PStr string
  | PList "pyobj list"
  | PDict "(string \<times> pyobj) list"



definition int16 :: "unicodedata \<Rightarrow> pyobj \<Rightarrow> error + int" where
  "int16 db x = (case x of PStr s \<Rightarrow> py_int16 db s | _ \<Rightarrow> Inl TypeError)"

section \<open>Group parameters\<close>

text \<open>
  The module \<open>zkpauth/constants.py\<close>, from which every source file imports \<open>P\<close>,
  \<open>G\<close>, \<open>Q\<close>, \<open>CHALLENGE_BITS\<close> and \<open>ROUNDS\<close>, is not among the sources. Its
  constants are parameters of every definition below: the modulus \<open>P\<close>, the generator
  \<open>G\<close> and the subgroup order \<open>Q\<close> are integers, the challenge bit width and the
  round count natural numbers, and each theorem states what it needs of them. The two
  hash functions of \<open>hashlib\<close> are parameters as well: \<open>shake_256 m n\<close> stands for
  \<open>hashlib.shake_256(m).digest(n)\<close> and \<open>blake2b m\<close> for the 32-byte digest
  \<open>hashlib.blake2b(m, digest_size=32).digest()\<close>. So is the interpreter's Unicode
  database.
\<close>

record env =
  P :: int
  G :: int
  Q :: int
  CHALLENGE_BITS :: nat
  ROUNDS :: nat
  shake_256 :: "bytes \<Rightarrow> nat \<Rightarrow> bytes"
  blake2b :: "bytes \<Rightarrow> bytes"
  unicodedata :: unicodedata

section \<open>Schnorr identification (crypto.py)\<close>


record SchnorrProof =
  challenge :: int
  response :: int

record SchnorrProver =
  secret :: int

record SchnorrVerifier =
  public_key :: int

definition SchnorrProver_init :: "env \<Rightarrow> int \<Rightarrow> error + SchnorrProver" where
  "SchnorrProver_init env s =
     (if \<not> (0 < s \<and> s < Q env)
      then Inl (ValueError ''Secret must lie in the multiplicative subgroup'')
      else Inr \<lparr>secret = s\<rparr>)"




definition SchnorrVerifier_init :: "env \<Rightarrow> int \<Rightarrow> error + SchnorrVerifier" where
  "SchnorrVerifier_init env pk =
     (if \<not> (0 < pk \<and> pk < P env)
      then Inl (ValueError ''Invalid public key'')
      else Inr \<lparr>public_key = pk\<rparr>)"


definition verify :: "env \<Rightarrow> SchnorrVerifier \<Rightarrow> int \<Rightarrow> SchnorrProof \<Rightarrow> error + bool" where
  "verify env self commitment_value proof =
     bind_err (py_pow (G env) (response proof) (P env)) (\<lambda>left.
     bind_err (py_pow (public_key self) (challenge proof) (P env)) (\<lambda>pw.
     bind_err (py_mod (commitment_value * pw) (P env)) (\<lambda>right.
     Inr (left = right))))"


section \<open>The Richens attestation method (richens.py)\<close>

definition int_to_bytes :: "int \<Rightarrow> error + bytes" where
  "int_to_bytes v = (let len = max 1 ((bit_length v + 7) div 8) in to_bytes v len)"

definition derive_coefficients :: "env \<Rightarrow> bytes \<Rightarrow> string \<Rightarrow> error + (int \<times> int \<times> int)" where
  "derive_coefficients env essence ctx =
     (let material = essence @ encode_utf8 ctx;
          stream = shake_256 env material 96
      in bind_err (py_mod (from_bytes (take 32 stream)) (Q env)) (\<lambda>a.
         bind_err (py_mod (from_bytes (take 32 (drop 32 stream))) (Q env)) (\<lambda>b.
         bind_err (py_mod (from_bytes (take 32 (drop 64 stream))) (Q env)) (\<lambda>c.
         Inr (a, b, c)))))"

text \<open>
  The hasher is modelled by the bytes fed to it so far: \<open>update\<close> appends, and
  \<open>hexdigest\<close> renders the digest of all of them.
\<close>

fun hasher_updates :: "int list \<Rightarrow> bytes \<Rightarrow> error + bytes" where
  "hasher_updates [] h = Inr h"
| "hasher_updates (v # vs) h = bind_err (int_to_bytes v) (\<lambda>b. hasher_updates vs (h @ b))"

definition hexdigest :: "env \<Rightarrow> bytes \<Rightarrow> string" where
  "hexdigest env h = hex_of_bytes (blake2b env h)"

definition compute_fingerprint :: "env \<Rightarrow> int list \<Rightarrow> string \<Rightarrow> error + string" where
  "compute_fingerprint env vec ctx =
     bind_err (hasher_updates vec []) (\<lambda>h. Inr (hexdigest env (h @ encode_utf8 ctx)))"

record RichensCapsule =
  vector :: "int list"
  context_str :: string
  anchor :: int
  fingerprint :: string


definition derive_anchor :: "env \<Rightarrow> int list \<Rightarrow> error + int" where
  "derive_anchor env vec =
     bind_err (index vec 0) (\<lambda>v0. bind_err (py_pow v0 2 (P env)) (\<lambda>p0.
     bind_err (index vec 1) (\<lambda>v1. bind_err (py_pow v1 3 (P env)) (\<lambda>p1.
     bind_err (index vec 2) (\<lambda>v2. bind_err (py_pow v2 5 (P env)) (\<lambda>p2.
     py_mod (p0 * p1 * p2) (P env)))))))"


definition persona :: "RichensCapsule \<Rightarrow> string" where
  "persona self = concat (take 24 (utf8_chars (fingerprint self)))"

record RichensProof =
  response :: int
  orbital :: int
  parity :: string

definition mint_capsule :: "env \<Rightarrow> bytes \<Rightarrow> string \<Rightarrow> error + RichensCapsule" where
  "mint_capsule env essence ctx =
     bind_err (derive_coefficients env essence ctx) (\<lambda>(a, b, c).
     bind_err (sequence_err (map (\<lambda>v. py_pow (G env) v (P env)) [a, b, c])) (\<lambda>vec.
     bind_err (derive_anchor env vec) (\<lambda>anc.
     bind_err (compute_fingerprint env vec ctx) (\<lambda>fp.
     Inr \<lparr>vector = vec, context_str = ctx, anchor = anc, fingerprint = fp\<rparr>))))"

text \<open>
  \<open>issue_challenge\<close> loops until a candidate is accepted. The raw entropy of the
  successive \<open>secrets.randbits\<close> calls is a list; the result is \<open>None\<close> when the list
  is used up before the loop has returned or raised.
\<close>

fun issue_challenge_loop :: "env \<Rightarrow> int \<Rightarrow> nat list \<Rightarrow> (error + int) option" where
  "issue_challenge_loop env sz [] = None"
| "issue_challenge_loop env sz (r # rs) =
     (case randbits sz r of
        Inl e \<Rightarrow> Some (Inl e)
      | Inr candidate \<Rightarrow>
          if 0 < candidate \<and> candidate < Q env then Some (Inr candidate)
          else issue_challenge_loop env sz rs)"

definition issue_challenge :: "env \<Rightarrow> int \<Rightarrow> nat list \<Rightarrow> (error + int) option" where
  "issue_challenge env bits draws =
     (let sz = min bits (int (bit_length (Q env))) in issue_challenge_loop env sz draws)"

definition parity_digest :: "env \<Rightarrow> int \<Rightarrow> int \<Rightarrow> string \<Rightarrow> error + string" where
  "parity_digest env challenge_mod orb ctx =
     bind_err (int_to_bytes challenge_mod) (\<lambda>b1.
     bind_err (int_to_bytes orb) (\<lambda>b2.
     Inr (hexdigest env (b1 @ b2 @ encode_utf8 ctx))))"

definition respond_to_challenge :: "env \<Rightarrow> bytes \<Rightarrow> int \<Rightarrow> string \<Rightarrow> error + RichensProof" where
  "respond_to_challenge env essence chal ctx =
     bind_err (derive_coefficients env essence ctx) (\<lambda>(a, b, c).
     bind_err (py_mod chal (Q env)) (\<lambda>challenge_mod.
     bind_err (py_pow challenge_mod 2 (Q env)) (\<lambda>sq.
     bind_err (py_mod (a + b * challenge_mod + c * sq) (Q env)) (\<lambda>polynomial.
     bind_err (py_pow (G env) polynomial (P env)) (\<lambda>orb.
     bind_err (parity_digest env challenge_mod orb ctx) (\<lambda>par.
     Inr \<lparr>response = polynomial, orbital = orb, parity = par\<rparr>))))))"

definition expected_orbital :: "env \<Rightarrow> int list \<Rightarrow> int \<Rightarrow> error + int" where
  "expected_orbital env vec challenge_mod =
     bind_err (index vec 0) (\<lambda>v0. bind_err (py_pow v0 1 (P env)) (\<lambda>e0.
     bind_err (index vec 1) (\<lambda>v1. bind_err (py_pow v1 challenge_mod (P env)) (\<lambda>p1.
     bind_err (py_mod (e0 * p1) (P env)) (\<lambda>e1.
     bind_err (index vec 2) (\<lambda>v2. bind_err (py_pow challenge_mod 2 (Q env)) (\<lambda>sq.
     bind_err (py_pow v2 sq (P env)) (\<lambda>p2.
     py_mod (e1 * p2) (P env)))))))))"

definition verify_attestation :: "env \<Rightarrow> RichensCapsule \<Rightarrow> int \<Rightarrow> RichensProof \<Rightarrow> error + bool" where
  "verify_attestation env capsule chal proof =
     bind_err (derive_anchor env (vector capsule)) (\<lambda>anc.
     if anchor capsule \<noteq> anc then Inr False
     else
     bind_err (compute_fingerprint env (vector capsule) (context_str capsule)) (\<lambda>fp.
     if fingerprint capsule \<noteq> fp then Inr False
     else
     bind_err (py_mod chal (Q env)) (\<lambda>challenge_mod.
     bind_err (expected_orbital env (vector capsule) challenge_mod) (\<lambda>expected.
     bind_err (py_pow (G env) (response proof) (P env)) (\<lambda>gr.
     if gr \<noteq> orbital proof then Inr False
     else if orbital proof \<noteq> expected then Inr False
     else
     bind_err (parity_digest env challenge_mod (orbital proof) (context_str capsule)) (\<lambda>expected_parity.
     compare_digest (parity proof) expected_parity))))))"

section \<open>Registration and authentication helpers (auth.py)\<close>

text \<open>
  The credential store reads a JSON file on every lookup. \<open>authenticate\<close> uses it
  through \<open>get_by_alias\<close> and \<open>get_by_credential\<close> only, so the store is modelled
  by these two lookups.
\<close>

record UserRecord =
  credential_id :: string
  public_key :: int
  alias_str :: "string option"






text \<open>What \<open>_int_to_bytes\<close> returns for a value that is not negative.\<close>

definition minimal_bytes :: "int \<Rightarrow> bytes" where
  "minimal_bytes v = to_bytes_big (max 1 ((bit_length v + 7) div 8)) (nat v)"


definition parity_message :: "int \<Rightarrow> int \<Rightarrow> string \<Rightarrow> bytes" where
  "parity_message challenge_mod orb ctx =
     minimal_bytes challenge_mod @ minimal_bytes orb @ encode_utf8 ctx"

text \<open>
  The digest is a parameter, and no digest of 32 bytes is injective. What a theorem
  needs of it is said for the two messages concerned: they have the same digest only
  if they are the same message.
\<close>

definition no_collision :: "env \<Rightarrow> bytes \<Rightarrow> bytes \<Rightarrow> bool" where
  "no_collision env m m' = (blake2b env m = blake2b env m' \<longrightarrow> m = m')"


section \<open>Example parameters\<close>

text \<open>
  A small instance for evaluating the definitions: \<open>2\<close> has order \<open>11\<close> modulo \<open>23\<close>.
  Its digest is the message itself, which has no collisions, and its extendable
  output is the message followed by a fixed padding. Its Unicode database has the
  no-break space and the Arabic-Indic digits.
\<close>

definition small_env :: env where
  "small_env =
     \<lparr>P = 23, G = 2, Q = 11, CHALLENGE_BITS = 3, ROUNDS = 2,
      shake_256 = (\<lambda>m n. take n (m @ replicate n (CHR ''a''))),
      blake2b = (\<lambda>m. m),
      unicodedata =
        \<lparr>isspace = (\<lambda>ch. ch = 160),
         todecimal = (\<lambda>ch. if 1632 \<le> ch \<and> ch \<le> 1641 then Some (ch - 1632) else None)\<rparr>\<rparr>"

section \<open>Properties\<close>

lemma bind_err_simps [simp]:
  "bind_err (Inl e) f = Inl e"
  "bind_err (Inr v) f = f v"
  by (simp_all add: bind_err_def)

lemma small_env_simps [simp]:
  "P small_env = 23" "G small_env = 2" "Q small_env = 11"
  "CHALLENGE_BITS small_env = 3" "ROUNDS small_env = 2"
  "shake_256 small_env = (\<lambda>m n. take n (m @ replicate n (CHR ''a'')))"
  "blake2b small_env = (\<lambda>m. m)"
  by (simp_all add: small_env_def)

lemma py_pow_nonneg: "m \<noteq> 0 \<Longrightarrow> 0 \<le> e \<Longrightarrow> py_pow b e m = Inr (b ^ nat e mod m)"
  by (simp add: py_pow_def)

text \<open>
  C8. Constructing a Schnorr prover with a secret outside the open interval \<open>(0, Q)\<close>
  raises (the source's \<open>ValueError\<close>, at once, in the constructor), and so does
  constructing a verifier with a public key outside \<open>(0, P)\<close>; with a value inside the
  interval each construction succeeds and holds that value.
\<close>

theorem constructors_check_range:
  "(\<not> (0 < s \<and> s < Q env) \<longrightarrow>
      SchnorrProver_init env s = Inl (ValueError ''Secret must lie in the multiplicative subgroup''))
   \<and> (0 < s \<and> s < Q env \<longrightarrow> SchnorrProver_init env s = Inr \<lparr>secret = s\<rparr>)
   \<and> (\<not> (0 < pk \<and> pk < P env) \<longrightarrow>
      SchnorrVerifier_init env pk = Inl (ValueError ''Invalid public key''))
   \<and> (0 < pk \<and> pk < P env \<longrightarrow> SchnorrVerifier_init env pk = Inr \<lparr>SchnorrVerifier.public_key = pk\<rparr>)"
  by (simp add: SchnorrProver_init_def SchnorrVerifier_init_def)

theorem constructors_check_range_witness:
  "SchnorrProver_init small_env 0 = Inl (ValueError ''Secret must lie in the multiplicative subgroup'')
   \<and> SchnorrProver_init small_env 11 = Inl (ValueError ''Secret must lie in the multiplicative subgroup'')
   \<and> SchnorrProver_init small_env 10 = Inr \<lparr>secret = 10\<rparr>
   \<and> SchnorrVerifier_init small_env 23 = Inl (ValueError ''Invalid public key'')
   \<and> SchnorrVerifier_init small_env (- 1) = Inl (ValueError ''Invalid public key'')
   \<and> SchnorrVerifier_init small_env 22 = Inr \<lparr>SchnorrVerifier.public_key = 22\<rparr>"
  using constructors_check_range [of 0 small_env 23]
        constructors_check_range [of 11 small_env "- 1"]
        constructors_check_range [of 10 small_env 22]
  by simp



text \<open>
  C3. For a commitment value \<open>c\<close> in \<open>(0, P)\<close> and a Schnorr proof (challenge and
  response not negative, as the proof's fields are), \<open>verify\<close> raises nothing and
  returns a boolean, which is true if and only if \<open>G ^ response mod P\<close> equals
  \<open>(c * (public_key ^ challenge mod P)) mod P\<close>.
\<close>

theorem verify_accepts_iff:
  assumes "0 < c" "c < P env" "0 \<le> challenge prf" "0 \<le> SchnorrProof.response prf"
  shows "verify env self c prf =
           Inr (G env ^ nat (SchnorrProof.response prf) mod P env
                = (c * (SchnorrVerifier.public_key self ^ nat (challenge prf) mod P env)) mod P env)"
  using assms by (simp add: verify_def py_pow_nonneg py_mod_def)

theorem verify_accepts_iff_witness:
  "verify small_env \<lparr>SchnorrVerifier.public_key = 8\<rparr> 16 \<lparr>challenge = 5, response = 8\<rparr> = Inr True
   \<and> verify small_env \<lparr>SchnorrVerifier.public_key = 8\<rparr> 16 \<lparr>challenge = 5, response = 9\<rparr> = Inr False"
  using verify_accepts_iff [of 16 small_env "\<lparr>challenge = 5, response = 8\<rparr>" "\<lparr>SchnorrVerifier.public_key = 8\<rparr>"]
        verify_accepts_iff [of 16 small_env "\<lparr>challenge = 5, response = 9\<rparr>" "\<lparr>SchnorrVerifier.public_key = 8\<rparr>"]
  by simp







lemma less_pow_bit_length: "n < 2 ^ bit_length_nat n"
proof (induction n rule: bit_length_nat.induct)
  case (1 n)
  show ?case
  proof (cases "n = 0")
    case True
    then show ?thesis by (simp add: bit_length_nat.simps)
  next
    case False
    with 1 have "n div 2 < 2 ^ bit_length_nat (n div 2)" by simp
    then have "n < 2 * 2 ^ bit_length_nat (n div 2)" by linarith
    with False show ?thesis by (simp add: bit_length_nat.simps [of n])
  qed
qed

lemma fits_in_bytes: "n < 256 ^ max 1 ((bit_length_nat n + 7) div 8)"
proof -
  let ?k = "max 1 ((bit_length_nat n + 7) div 8)"
  have "bit_length_nat n \<le> 8 * ?k" by simp
  then have "(2::nat) ^ bit_length_nat n \<le> 2 ^ (8 * ?k)"
    by (intro power_increasing) simp_all
  also have "(2::nat) ^ (8 * ?k) = 256 ^ ?k" by (simp add: power_mult)
  finally show ?thesis using less_pow_bit_length [of n] by linarith
qed

lemma int_to_bytes_nonneg:
  "0 \<le> v \<Longrightarrow>
     int_to_bytes v = Inr (to_bytes_big (max 1 ((bit_length v + 7) div 8)) (nat v))"
  using fits_in_bytes [of "nat v"]
  by (simp add: int_to_bytes_def to_bytes_def bit_length_def Let_def not_le)

lemma int_to_bytes_neg: "v < 0 \<Longrightarrow> int_to_bytes v = Inl OverflowError"
  by (simp add: int_to_bytes_def to_bytes_def)

lemma from_bytes_snoc: "from_bytes (bs @ [b]) = from_bytes bs * 256 + of_char b"
  by (simp add: from_bytes_def)

lemma of_char_char_of_int: "(of_char (char_of (v::nat)) :: int) = int (v mod 256)"
proof -
  have "(of_char (char_of v) :: int) = int (of_char (char_of v))"
    by (simp only: of_nat_of_char)
  then show ?thesis by (simp only: of_char_of)
qed

lemma from_bytes_to_bytes_big: "v < 256 ^ k \<Longrightarrow> from_bytes (to_bytes_big k v) = int v"
proof (induction k arbitrary: v)
  case 0
  then show ?case by (simp add: from_bytes_def)
next
  case (Suc k)
  then have "v div 256 < 256 ^ k" by (simp add: less_mult_imp_div_less mult.commute)
  with Suc.IH have "from_bytes (to_bytes_big k (v div 256)) = int (v div 256)" by simp
  then show ?case
    by (simp add: from_bytes_snoc of_char_char_of_int zdiv_int zmod_int del: char_of_mod_256)
qed

lemma int_to_bytes_value: "int_to_bytes v = Inr b \<Longrightarrow> 0 \<le> v \<and> from_bytes b = v"
proof -
  assume a: "int_to_bytes v = Inr b"
  have nn: "0 \<le> v" using a int_to_bytes_neg [of v] by (cases "v < 0") simp_all
  with a have "b = to_bytes_big (max 1 ((bit_length v + 7) div 8)) (nat v)"
    by (simp add: int_to_bytes_nonneg)
  with nn fits_in_bytes [of "nat v"] show ?thesis
    by (simp add: from_bytes_to_bytes_big bit_length_def)
qed

lemma int_to_bytes_inj: "int_to_bytes v = Inr b \<Longrightarrow> int_to_bytes w = Inr b \<Longrightarrow> v = w"
  using int_to_bytes_value by blast

lemma hex_digit_ascii: "n < 16 \<Longrightarrow> (of_char (hex_digit n) :: nat) < 128"
  by (simp add: hex_digit_def of_char_of)

lemma hexval_hex_digit: "n < 16 \<Longrightarrow> hexval (hex_digit n) = Some n"
  by (simp add: hexval_def hex_digit_def of_char_of Let_def)

lemma of_char_less_256: "(of_char c :: nat) < 256"
  by (metis of_char_mod_256 mod_less_divisor zero_less_numeral)

lemma is_ascii_hex_of_bytes: "is_ascii (hex_of_bytes bs)"
proof -
  have "\<And>b. (of_char b :: nat) div 16 < 16" using of_char_less_256 by (simp add: less_mult_imp_div_less)
  then show ?thesis
    by (auto simp: is_ascii_def hex_of_bytes_def hex_digit_ascii)
qed

lemma hex_of_bytes_Cons:
  "hex_of_bytes (b # bs) = hex_digit (of_char b div 16) # hex_digit (of_char b mod 16) # hex_of_bytes bs"
  by (simp add: hex_of_bytes_def)

lemma hex_of_bytes_Nil: "hex_of_bytes [] = []"
  by (simp add: hex_of_bytes_def)

lemma hex_pair_inj:
  assumes "hex_digit (of_char a div 16) = hex_digit (of_char b div 16)"
    and "hex_digit (of_char a mod 16) = hex_digit (of_char b mod 16)"
  shows "a = b"
proof -
  have d: "(of_char a :: nat) div 16 < 16" "(of_char b :: nat) div 16 < 16"
    using of_char_less_256 by (simp_all add: less_mult_imp_div_less)
  have "Some ((of_char a :: nat) div 16) = Some (of_char b div 16)"
    using assms(1) d by (metis hexval_hex_digit)
  moreover have "Some ((of_char a :: nat) mod 16) = Some (of_char b mod 16)"
    using assms(2) by (metis hexval_hex_digit mod_less_divisor zero_less_numeral)
  ultimately have "(of_char a :: nat) = of_char b"
    by (metis option.inject div_mult_mod_eq)
  then show ?thesis by simp
qed

lemma hex_of_bytes_inj: "hex_of_bytes xs = hex_of_bytes ys \<Longrightarrow> xs = ys"
proof (induction xs arbitrary: ys)
  case Nil
  then show ?case by (cases ys) (simp_all add: hex_of_bytes_Cons hex_of_bytes_Nil)
next
  case (Cons x xs)
  then show ?case
    by (cases ys) (auto simp: hex_of_bytes_Cons hex_of_bytes_Nil dest: hex_pair_inj)
qed

lemma compare_digest_hexdigest:
  "compare_digest (hexdigest env x) (hexdigest env y) = Inr (hexdigest env x = hexdigest env y)"
  by (simp add: compare_digest_def hexdigest_def is_ascii_hex_of_bytes)

lemma hexdigest_no_collision:
  "no_collision env x y \<Longrightarrow> hexdigest env x = hexdigest env y \<longleftrightarrow> x = y"
  by (auto simp: hexdigest_def no_collision_def dest: hex_of_bytes_inj)


lemma derive_coefficients_pos:
  assumes "0 < Q env"
  shows "\<exists>a b c. derive_coefficients env essence ctx = Inr (a, b, c)
           \<and> 0 \<le> a \<and> a < Q env \<and> 0 \<le> b \<and> b < Q env \<and> 0 \<le> c \<and> c < Q env"
  using assms by (simp add: derive_coefficients_def py_mod_def Let_def)

lemma derive_anchor_triple:
  "P env \<noteq> 0 \<Longrightarrow>
     derive_anchor env [x, y, z]
       = Inr ((x ^ 2 mod P env * (y ^ 3 mod P env) * (z ^ 5 mod P env)) mod P env)"
  by (simp add: derive_anchor_def index_def py_pow_nonneg py_mod_def)

lemma int_to_bytes_eq: "0 \<le> v \<Longrightarrow> int_to_bytes v = Inr (minimal_bytes v)"
  by (simp add: int_to_bytes_nonneg minimal_bytes_def)

lemma hasher_updates_nonneg:
  "\<forall>v\<in>set vs. 0 \<le> v \<Longrightarrow> hasher_updates vs h = Inr (h @ concat (map minimal_bytes vs))"
  by (induction vs arbitrary: h) (simp_all add: int_to_bytes_eq)


lemma compute_fingerprint_nonneg:
  "\<forall>v\<in>set vs. 0 \<le> v \<Longrightarrow>
     compute_fingerprint env vs ctx = Inr (hexdigest env (concat (map minimal_bytes vs) @ ctx))"
  by (simp add: compute_fingerprint_def hasher_updates_nonneg encode_utf8_def)

lemma parity_digest_nonneg:
  "0 \<le> t \<Longrightarrow> 0 \<le> orb \<Longrightarrow>
     parity_digest env t orb ctx = Inr (hexdigest env (minimal_bytes t @ minimal_bytes orb @ ctx))"
  by (simp add: parity_digest_def int_to_bytes_eq encode_utf8_def)

lemma expected_orbital_triple:
  "P env \<noteq> 0 \<Longrightarrow> Q env \<noteq> 0 \<Longrightarrow> 0 \<le> t \<Longrightarrow> 0 \<le> t ^ 2 mod Q env \<Longrightarrow>
     expected_orbital env [x, y, z] t
       = Inr ((((x ^ 1 mod P env) * (y ^ nat t mod P env)) mod P env
               * (z ^ nat (t ^ 2 mod Q env) mod P env)) mod P env)"
  by (simp add: expected_orbital_def index_def py_pow_nonneg py_mod_def)

lemma mint_capsule_pos:
  assumes "0 < P env" "0 < Q env" "derive_coefficients env essence ctx = Inr (a, b, c)"
  shows "mint_capsule env essence ctx =
     Inr \<lparr>vector = [G env ^ nat a mod P env, G env ^ nat b mod P env, G env ^ nat c mod P env],
          context_str = ctx,
          anchor = ((G env ^ nat a mod P env) ^ 2 mod P env * ((G env ^ nat b mod P env) ^ 3 mod P env)
                      * ((G env ^ nat c mod P env) ^ 5 mod P env)) mod P env,
          fingerprint = hexdigest env
            (concat (map minimal_bytes
               [G env ^ nat a mod P env, G env ^ nat b mod P env, G env ^ nat c mod P env]) @ ctx)\<rparr>"
proof -
  from derive_coefficients_pos [OF assms(2), of essence ctx] assms(3)
  have nn: "0 \<le> a" "0 \<le> b" "0 \<le> c" by simp_all
  have Pn: "P env \<noteq> 0" using assms(1) by simp
  have v: "\<forall>v\<in>set [G env ^ nat a mod P env, G env ^ nat b mod P env, G env ^ nat c mod P env]. 0 \<le> v"
    using assms(1) by simp
  show ?thesis
    unfolding mint_capsule_def
    by (simp add: assms(3) py_pow_nonneg Pn nn derive_anchor_triple
        compute_fingerprint_nonneg [OF v] del: power_mod)
qed

lemma respond_to_challenge_pos:
  assumes "0 < P env" "0 < Q env" "derive_coefficients env essence ctx = Inr (a, b, c)"
    and t': "t' = t mod Q env" and poly: "poly = (a + b * t' + c * (t' ^ 2 mod Q env)) mod Q env"
    and orb: "orb = G env ^ nat poly mod P env"
  shows "respond_to_challenge env essence t ctx =
     Inr \<lparr>response = poly, orbital = orb,
          parity = hexdigest env (minimal_bytes t' @ minimal_bytes orb @ ctx)\<rparr>"
proof -
  have Pn: "P env \<noteq> 0" and Qn: "Q env \<noteq> 0" using assms by simp_all
  have t: "0 \<le> t'" using assms(2) by (simp add: t')
  have p: "0 \<le> poly" using assms(2) by (simp add: poly)
  have o: "0 \<le> orb" using assms(1) by (simp add: orb)
  have 1: "py_mod t (Q env) = Inr t'" by (simp add: py_mod_def Qn t')
  have 2: "py_pow t' 2 (Q env) = Inr (t' ^ 2 mod Q env)" by (simp add: py_pow_nonneg [OF Qn])
  have 3: "py_mod (a + b * t' + c * (t' ^ 2 mod Q env)) (Q env) = Inr poly"
    by (simp add: py_mod_def Qn poly)
  have 4: "py_pow (G env) poly (P env) = Inr orb"
    by (simp only: py_pow_nonneg [OF Pn p] orb)
  show ?thesis
    unfolding respond_to_challenge_def
    by (simp only: assms(3) bind_err_simps prod.case 1 2 3 4 parity_digest_nonneg [OF t o])
qed

lemma verify_attestation_eval:
  assumes "derive_anchor env (vector cap) = Inr an" "anchor cap = an"
    and "compute_fingerprint env (vector cap) (context_str cap) = Inr fp" "fingerprint cap = fp"
    and "Q env \<noteq> 0"
    and "expected_orbital env (vector cap) (t mod Q env) = Inr ex"
    and "py_pow (G env) (response pr) (P env) = Inr gr" "gr = orbital pr" "orbital pr = ex"
    and "parity_digest env (t mod Q env) ex (context_str cap) = Inr ep"
  shows "verify_attestation env cap t pr = compare_digest (parity pr) ep"
  by (simp add: verify_attestation_def assms py_mod_def)


lemma is_hex_hex_digit: "n < 16 \<Longrightarrow> is_hex (hex_digit n)"
  by (simp add: is_hex_def hexval_hex_digit)

lemma is_hex_not_underscore: "is_hex c \<Longrightarrow> c \<noteq> CHR ''_''"
  by (auto simp: is_hex_def hexval_def)

lemma is_hex_not_space: "is_hex c \<Longrightarrow> \<not> is_space c"
  by (auto simp: is_hex_def hexval_def is_space_def Let_def split: if_splits)


lemma hex_digits_not_Nil: "hex_digits n \<noteq> []"
  by (subst hex_digits.simps) simp

lemma hex_digits_is_hex: "c \<in> set (hex_digits n) \<Longrightarrow> is_hex c"
proof (induction n rule: hex_digits.induct)
  case (1 n)
  then show ?case
    by (subst (asm) (2) hex_digits.simps) (auto simp: is_hex_hex_digit split: if_splits)
qed

lemma digits_value_snoc: "digits_value (ds @ [c]) = digits_value ds * 16 + the (hexval c)"
  by (simp add: digits_value_def)

lemma digits_value_hex_digits: "digits_value (hex_digits n) = n"
proof (induction n rule: hex_digits.induct)
  case (1 n)
  show ?case
  proof (cases "n < 16")
    case True
    then show ?thesis
      by (subst hex_digits.simps) (simp add: digits_value_def hexval_hex_digit)
  next
    case False
    with 1 have "digits_value (hex_digits (n div 16)) = n div 16" by simp
    with False show ?thesis
      by (subst hex_digits.simps) (simp add: digits_value_snoc hexval_hex_digit)
  qed
qed

lemma no_double_underscore: "\<forall>c\<in>set ds. c \<noteq> CHR ''_'' \<Longrightarrow> \<not> double_underscore ds"
  by (induction ds rule: double_underscore.induct) auto

lemma long_from_string_digits:
  assumes "ds \<noteq> []" "\<forall>c\<in>set ds. is_hex c"
  shows "long_from_string (CHR ''0'' # CHR ''x'' # ds) = Inr (int (digits_value ds))"
    and "long_from_string (CHR ''-'' # CHR ''0'' # CHR ''x'' # ds) = Inr (- int (digits_value ds))"
proof -
  obtain d r where ds: "ds = d # r" using assms(1) by (cases ds) auto
  have d: "d \<noteq> CHR ''_''" using assms(2) ds is_hex_not_underscore by auto
  have l: "last ds \<noteq> CHR ''_''" using assms is_hex_not_underscore last_in_set by blast
  have tw: "takeWhile (\<lambda>c. is_hex c \<or> c = CHR ''_'') ds = ds"
    using assms(2) by (simp add: takeWhile_eq_all_conv)
  have dw: "dropWhile (\<lambda>c. is_hex c \<or> c = CHR ''_'') ds = []"
    using assms(2) by simp
  have f: "filter is_hex ds = ds" using assms(2) by simp
  have nd: "\<not> double_underscore ds"
    using assms(2) is_hex_not_underscore by (intro no_double_underscore) blast
  have s0: "\<not> is_space (CHR ''0'')" "\<not> is_space (CHR ''-'')" by (simp_all add: is_space_def)
  have body: "(case ds of [] \<Rightarrow> ds | c # r' \<Rightarrow> if c = CHR ''_'' then r' else ds) = ds"
    using d by (simp add: ds)
  show "long_from_string (CHR ''0'' # CHR ''x'' # ds) = Inr (int (digits_value ds))"
    using assms(1) l nd d
    by (simp add: long_from_string_def Let_def s0 body tw dw f) (simp add: ds)
  show "long_from_string (CHR ''-'' # CHR ''0'' # CHR ''x'' # ds) = Inr (- int (digits_value ds))"
    using assms(1) l nd d
    by (simp add: long_from_string_def Let_def s0 body tw dw f) (simp add: ds)
qed

lemma is_hex_ascii: "is_hex c \<Longrightarrow> (of_char c :: nat) < 128"
  by (auto simp: is_hex_def hexval_def Let_def split: if_splits)

lemma py_int16_ascii: "is_ascii s \<Longrightarrow> py_int16 db s = long_from_string s"
  by (simp add: py_int16_def transform_decimal_and_space_def)

lemma py_int16_digits:
  assumes "ds \<noteq> []" "\<forall>c\<in>set ds. is_hex c"
  shows "py_int16 db (CHR ''0'' # CHR ''x'' # ds) = Inr (int (digits_value ds))"
    and "py_int16 db (CHR ''-'' # CHR ''0'' # CHR ''x'' # ds) = Inr (- int (digits_value ds))"
proof -
  have a: "is_ascii (CHR ''0'' # CHR ''x'' # ds)" "is_ascii (CHR ''-'' # CHR ''0'' # CHR ''x'' # ds)"
    using assms(2) by (simp_all add: is_ascii_def is_hex_ascii)
  show "py_int16 db (CHR ''0'' # CHR ''x'' # ds) = Inr (int (digits_value ds))"
    by (simp only: py_int16_ascii [OF a(1)] long_from_string_digits(1) [OF assms])
  show "py_int16 db (CHR ''-'' # CHR ''0'' # CHR ''x'' # ds) = Inr (- int (digits_value ds))"
    by (simp only: py_int16_ascii [OF a(2)] long_from_string_digits(2) [OF assms])
qed

lemma py_int16_py_hex: "py_int16 db (py_hex v) = Inr v"
proof (cases "v < 0")
  case True
  then show ?thesis
    using py_int16_digits(2) [OF hex_digits_not_Nil, of "nat (- v)"] hex_digits_is_hex
    by (simp add: py_hex_def digits_value_hex_digits)
next
  case False
  then show ?thesis
    using py_int16_digits(1) [OF hex_digits_not_Nil, of "nat v"] hex_digits_is_hex
    by (simp add: py_hex_def digits_value_hex_digits)
qed

lemma sequence_err_hex: "sequence_err (map (int16 db) (map (\<lambda>c. PStr (py_hex c)) vs)) = Inr vs"
  by (induction vs) (simp_all add: int16_def py_int16_py_hex)

lemma bind_err_Inr:
  "bind_err m f = Inr r \<longleftrightarrow> (\<exists>v. m = Inr v \<and> f v = Inr r)"
  by (cases m) simp_all

lemma mint_capsule_invariant:
  assumes "mint_capsule env essence ctx = Inr capsule"
  shows "derive_anchor env (vector capsule) = Inr (anchor capsule)"
    and "compute_fingerprint env (vector capsule) (context_str capsule) = Inr (fingerprint capsule)"
    and "context_str capsule = ctx"
  using assms unfolding mint_capsule_def
  by (auto simp: bind_err_Inr)


text \<open>
  C9. Two challenges with the same residue modulo \<open>Q\<close> get the same result from
  \<open>respond_to_challenge\<close> (the same proof, or the same exception), and every capsule
  and every proof get the same result from \<open>verify_attestation\<close> against both: each
  operation reads the challenge through \<open>challenge % Q\<close> only.
\<close>

theorem challenge_residue_only:
  assumes "A mod Q env = B mod Q env"
  shows "respond_to_challenge env essence A ctx = respond_to_challenge env essence B ctx
         \<and> verify_attestation env capsule A proof = verify_attestation env capsule B proof"
proof -
  have "py_mod A (Q env) = py_mod B (Q env)" using assms by (simp add: py_mod_def)
  then show ?thesis
    by (simp add: respond_to_challenge_def verify_attestation_def cong del: if_weak_cong)
qed


lemma minimal_bytes_inj: "0 \<le> v \<Longrightarrow> 0 \<le> w \<Longrightarrow> minimal_bytes v = minimal_bytes w \<Longrightarrow> v = w"
  using int_to_bytes_inj by (metis int_to_bytes_eq)

lemma verify_attestation_mismatch:
  assumes "derive_anchor env (vector cap) = Inr an" "anchor cap = an"
    and "compute_fingerprint env (vector cap) (context_str cap) = Inr fp" "fingerprint cap = fp"
    and "Q env \<noteq> 0"
    and "expected_orbital env (vector cap) (t mod Q env) = Inr ex"
    and "py_pow (G env) (response pr) (P env) = Inr gr" "orbital pr \<noteq> ex"
  shows "verify_attestation env cap t pr = Inr False"
  by (simp add: verify_attestation_def assms py_mod_def)

text \<open>
  C2, amended. Let \<open>0 < P\<close> and \<open>0 < Q\<close>. For a capsule minted from an essence and a
  context and the proof of that essence and context for challenge \<open>A\<close>, verification
  against a challenge \<open>B\<close> whose residue modulo \<open>Q\<close> differs from that of \<open>A\<close> returns
  false; the digest is assumed not to collide on the parity messages of the two
  residues.
\<close>

theorem other_challenge_rejected:
  assumes nc: "no_collision env (parity_message (A mod Q env) (orbital proof) ctx)
                                 (parity_message (B mod Q env) (orbital proof) ctx)"
    and P0: "0 < P env" and Q0: "0 < Q env"
    and m: "mint_capsule env essence ctx = Inr capsule"
    and r: "respond_to_challenge env essence A ctx = Inr proof"
    and ne: "A mod Q env \<noteq> B mod Q env"
  shows "verify_attestation env capsule B proof = Inr False"
proof -
  from derive_coefficients_pos [OF Q0, of essence ctx] obtain a b c where
    co: "derive_coefficients env essence ctx = Inr (a, b, c)" by blast
  define poly where "poly = (a + b * (A mod Q env) + c * ((A mod Q env) ^ 2 mod Q env)) mod Q env"
  define orb where "orb = G env ^ nat poly mod P env"
  have pr: "proof = \<lparr>response = poly, orbital = orb,
          parity = hexdigest env (minimal_bytes (A mod Q env) @ minimal_bytes orb @ ctx)\<rparr>"
    using r respond_to_challenge_pos [OF P0 Q0 co refl poly_def orb_def] by simp
  note inv = mint_capsule_invariant [OF m]
  have Pn: "P env \<noteq> 0" and Qn: "Q env \<noteq> 0" using P0 Q0 by simp_all
  have p0: "0 \<le> poly" using Q0 by (simp add: poly_def)
  have o0: "0 \<le> orb" using P0 by (simp add: orb_def)
  have tA: "0 \<le> A mod Q env" and tB: "0 \<le> B mod Q env" using Q0 by simp_all
  have vec: "vector capsule = [G env ^ nat a mod P env, G env ^ nat b mod P env, G env ^ nat c mod P env]"
    using m mint_capsule_pos [OF P0 Q0 co] by auto
  have sq: "0 \<le> (B mod Q env) ^ 2 mod Q env" using Q0 by simp
  obtain ex where ex: "expected_orbital env (vector capsule) (B mod Q env) = Inr ex"
    unfolding vec using expected_orbital_triple [OF Pn Qn tB sq] by blast
  have gr: "py_pow (G env) (response proof) (P env) = Inr orb"
    unfolding pr by (simp only: RichensProof.simps py_pow_nonneg [OF Pn p0] orb_def)
  have op: "orbital proof = orb" by (simp add: pr)
  show ?thesis
  proof (cases "orb = ex")
    case False
    then show ?thesis
      by (intro verify_attestation_mismatch [OF inv(1) refl inv(2) refl Qn ex gr]) (simp add: op)
  next
    case True
    have pd: "parity_digest env (B mod Q env) ex (context_str capsule)
        = Inr (hexdigest env (minimal_bytes (B mod Q env) @ minimal_bytes orb @ ctx))"
      unfolding True [symmetric] inv(3) by (rule parity_digest_nonneg [OF tB o0])
    have "verify_attestation env capsule B proof
       = compare_digest (parity proof)
           (hexdigest env (minimal_bytes (B mod Q env) @ minimal_bytes orb @ ctx))"
      by (rule verify_attestation_eval [OF inv(1) refl inv(2) refl Qn ex gr op [symmetric] _ pd])
         (simp add: op True)
    also have "\<dots> = Inr False"
      using ne minimal_bytes_inj [OF tA tB]
        hexdigest_no_collision [OF nc [unfolded parity_message_def encode_utf8_def op]]
      by (auto simp: pr compare_digest_hexdigest)
    finally show ?thesis .
  qed
qed

















lemma bit_length_nat_le: "n < 2 ^ k \<Longrightarrow> bit_length_nat n \<le> k"
proof (induction k arbitrary: n)
  case 0
  then show ?case by (simp add: bit_length_nat.simps)
next
  case (Suc k)
  then have "n div 2 < 2 ^ k" by simp
  from Suc.IH [OF this] show ?case by (subst bit_length_nat.simps) simp
qed

lemma randbits_bound:
  "randbits k r = Inr candidate \<Longrightarrow> 0 \<le> k \<and> 0 \<le> candidate \<and> int (bit_length candidate) \<le> k"
proof -
  assume a: "randbits k r = Inr candidate"
  then have k: "0 \<le> k" and c: "candidate = int (r mod 2 ^ nat k)"
    by (auto simp: randbits_def split: if_splits)
  have "bit_length_nat (r mod 2 ^ nat k) \<le> nat k"
    by (rule bit_length_nat_le) simp
  with k show ?thesis by (simp add: c bit_length_def)
qed

lemma issue_challenge_loop_Inr:
  "issue_challenge_loop env sz draws = Some (Inr v) \<Longrightarrow>
     0 < v \<and> v < Q env \<and> (\<exists>r\<in>set draws. randbits sz r = Inr v)"
proof (induction draws)
  case Nil
  then show ?case by simp
next
  case (Cons r rs)
  then show ?case
    by (cases "randbits sz r") (auto split: if_splits)
qed

lemma issue_challenge_loop_returns:
  "r \<in> set draws \<Longrightarrow> randbits sz r = Inr c \<Longrightarrow> 0 < c \<Longrightarrow> c < Q env \<Longrightarrow>
     \<exists>v. issue_challenge_loop env sz draws = Some (Inr v)"
proof (induction draws)
  case Nil
  then show ?case by simp
next
  case (Cons d ds)
  have k: "0 \<le> sz" using Cons.prems(2) randbits_bound by blast
  then obtain x where x: "randbits sz d = Inr x" by (simp add: randbits_def)
  show ?case
  proof (cases "0 < x \<and> x < Q env")
    case True
    then show ?thesis by (simp add: x)
  next
    case False
    then have "r \<noteq> d" using Cons.prems x by auto
    with Cons have "\<exists>v. issue_challenge_loop env sz ds = Some (Inr v)" by simp
    with False show ?thesis by (simp add: x)
  qed
qed

text \<open>
  C7. Every value \<open>issue_challenge\<close> returns is greater than \<open>0\<close> and less than \<open>Q\<close>,
  and is one of the sampled candidates; every candidate is sampled with
  \<open>min bits (bit_length Q)\<close> bits and has at most that many, for every \<open>bits\<close>. The loop
  returns as soon as one candidate lies in the range.
\<close>

theorem issue_challenge_range:
  "(issue_challenge env bits draws = Some (Inr v) \<longrightarrow>
      0 < v \<and> v < Q env
      \<and> (\<exists>r\<in>set draws. randbits (min bits (int (bit_length (Q env)))) r = Inr v))
   \<and> (randbits (min bits (int (bit_length (Q env)))) r = Inr candidate \<longrightarrow>
      0 \<le> candidate \<and> int (bit_length candidate) \<le> min bits (int (bit_length (Q env))))
   \<and> (r \<in> set draws \<and> randbits (min bits (int (bit_length (Q env)))) r = Inr candidate
        \<and> 0 < candidate \<and> candidate < Q env \<longrightarrow>
      (\<exists>w. issue_challenge env bits draws = Some (Inr w)))"
proof (intro conjI impI)
  assume "issue_challenge env bits draws = Some (Inr v)"
  then have "issue_challenge_loop env (min bits (int (bit_length (Q env)))) draws = Some (Inr v)"
    by (simp add: issue_challenge_def)
  from issue_challenge_loop_Inr [OF this]
  show "0 < v" "v < Q env"
    "\<exists>r\<in>set draws. randbits (min bits (int (bit_length (Q env)))) r = Inr v"
    by simp_all
next
  assume "randbits (min bits (int (bit_length (Q env)))) r = Inr candidate"
  from randbits_bound [OF this]
  show "0 \<le> candidate" "int (bit_length candidate) \<le> min bits (int (bit_length (Q env)))"
    by simp_all
next
  assume "r \<in> set draws \<and> randbits (min bits (int (bit_length (Q env)))) r = Inr candidate
        \<and> 0 < candidate \<and> candidate < Q env"
  then have "\<exists>w. issue_challenge_loop env (min bits (int (bit_length (Q env)))) draws = Some (Inr w)"
    using issue_challenge_loop_returns by blast
  then show "\<exists>w. issue_challenge env bits draws = Some (Inr w)"
    by (simp add: issue_challenge_def)
qed

lemma bit_length_11: "bit_length 11 = 4"
  by code_simp

theorem issue_challenge_range_witness:
  "issue_challenge small_env 64 [0, 11, 21, 3] = Some (Inr 5)
   \<and> 0 < (5::int) \<and> 5 < Q small_env
   \<and> int (bit_length 5) \<le> min 64 (int (bit_length (Q small_env)))"
proof -
  have i: "issue_challenge small_env 64 [0, 11, 21, 3] = Some (Inr 5)"
    by (simp add: issue_challenge_def bit_length_11 randbits_def)
  have r: "randbits (min 64 (int (bit_length (Q small_env)))) 21 = Inr 5"
    by (simp add: bit_length_11 randbits_def)
  from issue_challenge_range [of small_env 64 "[0, 11, 21, 3]" 5 21 5] i r
  show ?thesis by simp
qed

lemma mint_small:
  "mint_capsule small_env ''k'' ''c''
     = Inr \<lparr>vector = [4, 8, 8], context_str = ''c'', anchor = 18, fingerprint = ''04080863''\<rparr>"
  by code_simp

lemma respond_small:
  "respond_to_challenge small_env ''k'' 1 ''c''
     = Inr \<lparr>response = 8, orbital = 3, parity = ''010363''\<rparr>"
  by code_simp

lemma verify_small:
  "verify_attestation small_env
     \<lparr>vector = [4, 8, 8], context_str = ''c'', anchor = 18, fingerprint = ''04080863''\<rparr> 12
     \<lparr>response = 8, orbital = 3, parity = ''010363''\<rparr> = Inr True"
  by code_simp

lemma no_collision_small: "no_collision small_env m m'"
  by (simp add: no_collision_def)


theorem challenge_residue_only_witness:
  "respond_to_challenge small_env ''k'' 1 ''c'' = respond_to_challenge small_env ''k'' 12 ''c''
   \<and> verify_attestation small_env
        \<lparr>vector = [4, 8, 8], context_str = ''c'', anchor = 18, fingerprint = ''04080863''\<rparr> 1
        \<lparr>response = 8, orbital = 3, parity = ''010363''\<rparr>
     = verify_attestation small_env
        \<lparr>vector = [4, 8, 8], context_str = ''c'', anchor = 18, fingerprint = ''04080863''\<rparr> 12
        \<lparr>response = 8, orbital = 3, parity = ''010363''\<rparr>"
  using challenge_residue_only [of 1 small_env 12 "''k''" "''c''"
      "\<lparr>vector = [4, 8, 8], context_str = ''c'', anchor = 18, fingerprint = ''04080863''\<rparr>"
      "\<lparr>response = 8, orbital = 3, parity = ''010363''\<rparr>"]
  by simp



text \<open>
  C2, as stated, fails: the challenges \<open>1\<close> and \<open>12 = 1 + Q\<close> differ, and the proof for
  \<open>1\<close> verifies against \<open>12\<close>.
\<close>

theorem other_challenge_accepted_counterexample:
  "mint_capsule small_env ''k'' ''c''
     = Inr \<lparr>vector = [4, 8, 8], context_str = ''c'', anchor = 18, fingerprint = ''04080863''\<rparr>
   \<and> respond_to_challenge small_env ''k'' 1 ''c''
     = Inr \<lparr>response = 8, orbital = 3, parity = ''010363''\<rparr>
   \<and> (1::int) \<noteq> 12
   \<and> verify_attestation small_env
     \<lparr>vector = [4, 8, 8], context_str = ''c'', anchor = 18, fingerprint = ''04080863''\<rparr> 12
     \<lparr>response = 8, orbital = 3, parity = ''010363''\<rparr> = Inr True"
  using mint_small respond_small verify_small by simp

theorem other_challenge_rejected_witness:
  "verify_attestation small_env
     \<lparr>vector = [4, 8, 8], context_str = ''c'', anchor = 18, fingerprint = ''04080863''\<rparr> 2
     \<lparr>response = 8, orbital = 3, parity = ''010363''\<rparr> = Inr False"
  using other_challenge_rejected [OF no_collision_small _ _ mint_small respond_small, of 2]
  by simp

















end
